theory Spec2Isabelle
  imports Main "HOL-Library.Multiset"
begin

section \<open>The ACL plugin of jsDAV (lib/DAVACL/plugin.js)\<close>

text \<open>
  The plugin is written in continuation-passing style: a function receives a
  \<^verbatim>\<open>callback\<close> and ends by calling it with an error, by calling it with a value, by
  raising a JavaScript runtime error, or by returning without ever calling it. These four
  ends are the constructors of \<open>outcome\<close>. Collaborators (the tree, the nodes, the auth
  plugin) are taken to call their callbacks after the calling function body has run to its
  end, which is what the code assumes throughout.

  The file starts with \<^verbatim>\<open>"use strict"\<close>: reading an identifier that is declared nowhere
  raises a ReferenceError, and so does assigning to one.
\<close>

subsection \<open>Data model\<close>

datatype jsError = ReferenceError string | TypeError string

datatype exc =
    NeedPrivileges string "string list"
  | NotFound
  | MethodNotAllowed
  | AceConflict
  | NotSupportedPrivilege string
  | NoAbstract string
  | NotRecognizedPrincipal string
  | OtherError string

datatype 'a outcome =
    Yield 'a
  | Fail exc
  | Thrown jsError
  | NoCallback

text \<open>An ACE: \<^verbatim>\<open>{principal, privilege, protected}\<close>.\<close>

record ace =
  acePrincipal :: string
  privilege :: string
  protected :: bool

text \<open>
  A privilege of the supported-privilege tree. A privilege without an \<^verbatim>\<open>abstract\<close> field is
  not abstract (\<^verbatim>\<open>!!priv.abstract && priv.abstract\<close>), and one without \<^verbatim>\<open>aggregates\<close>
  is treated like one with none. An entry of the flat table has the fields the traversal
  writes: \<^verbatim>\<open>privilege\<close>, \<^verbatim>\<open>abstract\<close>, \<^verbatim>\<open>aggregates\<close> and \<^verbatim>\<open>concrete\<close>.
\<close>

datatype privTree =
  Priv (pt_privilege: string) (pt_abstract: bool) (pt_aggregates: "privTree list")

record flatPriv =
  fp_privilege :: string
  abstract :: bool
  aggregates :: "string list"
  concrete :: "string option"

type_synonym flatTable = "string \<rightharpoonup> flatPriv"

text \<open>
  A node of the tree, as far as the plugin looks at it. The interface objects
  \<^verbatim>\<open>jsDAVACL_iACL\<close> and \<^verbatim>\<open>jsDAVACL_iPrincipal\<close> are declared outside the file; what
  \<^verbatim>\<open>node.hasFeature\<close> answers for them is a field of the node. A node method that takes a
  callback is the value it delivers: an error or a result.
\<close>

record node =
  jsDAVACL_iACL :: bool
  jsDAVACL_iPrincipal :: bool
  nodeGetACL :: "exc + ace list"
  getOwner :: "string option"
  getGroupMembership :: "exc + string list"
  nodeGetSupportedPrivilegeSet :: "(exc + privTree option) option"

text \<open>
  The plugin object \<^verbatim>\<open>this\<close>: its configuration, the membership cache, and the handler's
  tree (\<^verbatim>\<open>this.handler.getNodeForPath\<close>) and auth plugin
  (\<^verbatim>\<open>this.handler.plugins.auth\<close>, \<open>None\<close> when there is none; otherwise what
  \<^verbatim>\<open>getCurrentUser\<close> delivers).
\<close>

record plugin =
  getNodeForPath :: "string \<Rightarrow> exc + node"
  authGetCurrentUser :: "(exc + string option) option"
  calculateUri :: "string \<Rightarrow> string"
  allowAccessToNodesWithoutACL :: bool
  defaultUsernamePath :: string
  adminPrincipals :: "string list"
  principalMembershipCache :: "string \<rightharpoonup> string list"

definition R_PARENT :: nat where "R_PARENT = 1"
definition R_RECURSIVE :: nat where "R_RECURSIVE = 2"
definition R_RECURSIVEPARENTS :: nat where "R_RECURSIVEPARENTS = 3"

subsection \<open>Principals and group membership\<close>

definition getCurrentUserPrincipal :: "plugin \<Rightarrow> string option outcome" where
  "getCurrentUserPrincipal this =
     (case authGetCurrentUser this of
        None \<Rightarrow> Yield None
      | Some (Inl err) \<Rightarrow> Fail err
      | Some (Inr None) \<Rightarrow> Yield None
      | Some (Inr (Some userName)) \<Rightarrow>
          if userName = [] then Yield None
          else Yield (Some (defaultUsernamePath this @ ''/'' @ userName)))"

text \<open>
  The body of \<^verbatim>\<open>memberships.forEach\<close> in \<^verbatim>\<open>getPrincipalMembership\<close>. Its test reads
  \<^verbatim>\<open>pricipals.indexOf(groupMember)\<close>; the accumulator is declared as \<^verbatim>\<open>principals\<close>, and
  \<^verbatim>\<open>pricipals\<close> is declared nowhere. \<open>readUndeclared\<close> is that read.
\<close>

definition readUndeclared :: "string \<Rightarrow> jsError + string list" where
  "readUndeclared name = Inl (ReferenceError name)"

fun forEachMembership ::
  "string list \<Rightarrow> string list \<times> string list \<Rightarrow> jsError + string list \<times> string list" where
  "forEachMembership [] st = Inr st"
| "forEachMembership (groupMember # rest) (check, principals) =
     (case readUndeclared ''pricipals'' of
        Inl e \<Rightarrow> Inl e
      | Inr pricipals \<Rightarrow>
          if groupMember \<notin> set pricipals
          then forEachMembership rest (check @ [groupMember], principals @ [groupMember])
          else forEachMembership rest (check, principals))"

definition checkedAll ::
  "plugin \<Rightarrow> string \<Rightarrow> exc option \<Rightarrow> string list \<Rightarrow> string list outcome \<times> plugin" where
  "checkedAll this mainPrincipal err principals =
     (case err of
        Some e \<Rightarrow> (Fail e, this)
      | None \<Rightarrow>
          (Yield principals,
           this\<lparr>principalMembershipCache :=
                  (principalMembershipCache this)(mainPrincipal \<mapsto> principals)\<rparr>))"

lemma forEachMembership_Inr:
  "forEachMembership ms st = Inr st' \<Longrightarrow> ms = [] \<and> st' = st"
  by (cases ms; cases st) (auto simp: readUndeclared_def)

function checkNext ::
  "plugin \<Rightarrow> string \<Rightarrow> string list \<Rightarrow> string list \<Rightarrow> string list outcome \<times> plugin" where
  "checkNext this mainPrincipal check principals =
     (case check of
        [] \<Rightarrow> checkedAll this mainPrincipal None principals
      | p # check' \<Rightarrow>
          if p = [] then checkedAll this mainPrincipal None principals
          else (case getNodeForPath this p of
                  Inl err \<Rightarrow> checkedAll this mainPrincipal (Some err) principals
                | Inr n \<Rightarrow>
                    if jsDAVACL_iPrincipal n
                    then (case getGroupMembership n of
                            Inl err \<Rightarrow> checkedAll this mainPrincipal (Some err) principals
                          | Inr memberships \<Rightarrow>
                              (case forEachMembership memberships (check', principals) of
                                 Inl e \<Rightarrow> (Thrown e, this)
                               | Inr (check'', principals') \<Rightarrow>
                                   checkNext this mainPrincipal check'' principals'))
                    else checkNext this mainPrincipal check' principals))"
  by pat_completeness auto
termination
  by (relation "measure (\<lambda>(this, mainPrincipal, check, principals). length check)")
     (auto dest: forEachMembership_Inr)

definition getPrincipalMembership ::
  "plugin \<Rightarrow> string \<Rightarrow> string list outcome \<times> plugin" where
  "getPrincipalMembership this mainPrincipal =
     (case principalMembershipCache this mainPrincipal of
        Some cached \<Rightarrow> (Yield cached, this)
      | None \<Rightarrow> checkNext this mainPrincipal [mainPrincipal] [])"

definition getCurrentUserPrincipals :: "plugin \<Rightarrow> string list outcome \<times> plugin" where
  "getCurrentUserPrincipals this =
     (case getCurrentUserPrincipal this of
        Fail err \<Rightarrow> (Fail err, this)
      | Thrown e \<Rightarrow> (Thrown e, this)
      | NoCallback \<Rightarrow> (NoCallback, this)
      | Yield None \<Rightarrow> (Yield [], this)
      | Yield (Some currentUser) \<Rightarrow>
          (case getPrincipalMembership this currentUser of
             (Yield membership, this') \<Rightarrow> (Yield (currentUser # membership), this')
           | (Fail err, this') \<Rightarrow> (Fail err, this')
           | (Thrown e, this') \<Rightarrow> (Thrown e, this')
           | (NoCallback, this') \<Rightarrow> (NoCallback, this')))"

subsection \<open>The privilege catalogue\<close>

definition getDefaultSupportedPrivilegeSet :: privTree where
  "getDefaultSupportedPrivilegeSet =
     Priv ''{DAV:}all'' True
       [Priv ''{DAV:}read'' False
          [Priv ''{DAV:}read-acl'' True [],
           Priv ''{DAV:}read-current-user-privilege-set'' True []],
        Priv ''{DAV:}write'' False
          [Priv ''{DAV:}write-acl'' True [],
           Priv ''{DAV:}write-properties'' True [],
           Priv ''{DAV:}write-content'' True [],
           Priv ''{DAV:}bind'' True [],
           Priv ''{DAV:}unbind'' True [],
           Priv ''{DAV:}unlock'' True []]]"

text \<open>
  The functions that take "a uri or a node" test the argument's type and fetch the node
  when it is a path.
\<close>

datatype nodeArg = ByPath string | ByNode node

text \<open>
  \<^verbatim>\<open>getSupportedPrivilegeSet\<close> runs its inner \<^verbatim>\<open>gotNode()\<close> either from the callback of
  \<^verbatim>\<open>getNodeForPath\<close> or, when it was handed a node, at once; the line
  \<^verbatim>\<open>var self = this\<close> stands after that call. \<open>self\<close> is \<open>None\<close> for the second case:
  the variable is hoisted, but not yet assigned, when \<^verbatim>\<open>gotNode\<close> reads it.
\<close>

definition getSupportedPrivilegeSet_gotNode :: "plugin option \<Rightarrow> node \<Rightarrow> privTree outcome" where
  "getSupportedPrivilegeSet_gotNode self n =
     (case nodeGetSupportedPrivilegeSet n of
        Some (Inl err) \<Rightarrow> Fail err
      | Some (Inr (Some result)) \<Rightarrow> Yield result
      | Some (Inr None) \<Rightarrow> Yield getDefaultSupportedPrivilegeSet
      | None \<Rightarrow>
          (case self of
             None \<Rightarrow> Thrown (TypeError ''self'')
           | Some _ \<Rightarrow> Yield getDefaultSupportedPrivilegeSet))"

definition getSupportedPrivilegeSet :: "plugin \<Rightarrow> nodeArg \<Rightarrow> privTree outcome" where
  "getSupportedPrivilegeSet this arg =
     (case arg of
        ByPath path \<Rightarrow>
          (case getNodeForPath this path of
             Inl err \<Rightarrow> Fail err
           | Inr n \<Rightarrow> getSupportedPrivilegeSet_gotNode (Some this) n)
      | ByNode n \<Rightarrow> getSupportedPrivilegeSet_gotNode None n)"

text \<open>
  \<^verbatim>\<open>getFPSTraverse\<close> starts with \<^verbatim>\<open>myPriv = {...}\<close>, and \<^verbatim>\<open>myPriv\<close> is declared nowhere:
  \<open>assignUndeclared\<close> is that assignment. The rest of the body is kept as written. The
  function has no \<^verbatim>\<open>return\<close>; what it builds is in its third argument (the \<^verbatim>\<open>[]\<close> of the
  call, not the outer \<^verbatim>\<open>flat\<close>) and in \<^verbatim>\<open>myPriv\<close>, and the model returns both as the
  state it leaves behind.
\<close>

definition assignUndeclared :: "string \<Rightarrow> 'a \<Rightarrow> jsError + 'a" where
  "assignUndeclared name v = Inl (ReferenceError name)"

fun getFPSTraverse ::
  "privTree \<Rightarrow> string option \<Rightarrow> flatTable \<Rightarrow> jsError + flatTable \<times> flatPriv" where
  "getFPSTraverse (Priv name isAbstract aggs) isConcrete flat =
     (case assignUndeclared ''myPriv''
             \<lparr>fp_privilege = name, abstract = isAbstract, aggregates = [],
              concrete = (if isAbstract then isConcrete else Some name)\<rparr> of
        Inl e \<Rightarrow> Inl e
      | Inr myPriv0 \<Rightarrow>
          (let myPriv = myPriv0\<lparr>aggregates := map pt_privilege aggs\<rparr> in
           fold (\<lambda>subPriv acc.
                   case acc of
                     Inl e \<Rightarrow> Inl e
                   | Inr (flat', myPriv') \<Rightarrow> getFPSTraverse subPriv (concrete myPriv') flat')
                aggs (Inr (flat(name \<mapsto> myPriv), myPriv))))"

text \<open>
  \<^verbatim>\<open>callback(null, getFPSTraverse(privs, null, []))\<close>: the callback gets the value the
  traversal returns, which is \<^verbatim>\<open>undefined\<close> (\<open>None\<close>).
\<close>

definition getFlatPrivilegeSet :: "plugin \<Rightarrow> nodeArg \<Rightarrow> flatTable option outcome" where
  "getFlatPrivilegeSet this arg =
     (case getSupportedPrivilegeSet this arg of
        Fail err \<Rightarrow> Fail err
      | Thrown e \<Rightarrow> Thrown e
      | NoCallback \<Rightarrow> NoCallback
      | Yield privs \<Rightarrow>
          (case getFPSTraverse privs None Map.empty of
             Inl e \<Rightarrow> Thrown e
           | Inr _ \<Rightarrow> Yield None))"

subsection \<open>ACLs and the current user's privileges\<close>

text \<open>
  \<^verbatim>\<open>getACL\<close> always ends in its callback: with an error, with nothing (a node without
  ACL support; \<open>Inr None\<close>), or with the node's ACL followed by one protected entry for
  each administrator principal.
\<close>

definition getACL_gotNode :: "plugin \<Rightarrow> node \<Rightarrow> exc + ace list option" where
  "getACL_gotNode self n =
     (if \<not> jsDAVACL_iACL n then Inr None
      else (case nodeGetACL n of
              Inl err \<Rightarrow> Inl err
            | Inr acl \<Rightarrow>
                Inr (Some (acl @
                  map (\<lambda>adminPrincipal.
                         \<lparr>acePrincipal = adminPrincipal, privilege = ''{DAV:}all'', protected = True\<rparr>)
                      (adminPrincipals self)))))"

definition getACL :: "plugin \<Rightarrow> nodeArg \<Rightarrow> exc + ace list option" where
  "getACL this arg =
     (case arg of
        ByPath path \<Rightarrow>
          (case getNodeForPath this path of
             Inl err \<Rightarrow> Inl err
           | Inr n \<Rightarrow> getACL_gotNode this n)
      | ByNode n \<Rightarrow> getACL_gotNode this n)"

text \<open>
  The \<^verbatim>\<open>acl.forEach\<close> of \<^verbatim>\<open>getCurrentUserPrivilegeSet\<close>, with its \<^verbatim>\<open>switch\<close> on the
  principal of the entry. \<^verbatim>\<open>owner && principals.indexOf(owner) > -1\<close>: \<^verbatim>\<open>null\<close> and the
  empty string are both falsy.
\<close>

fun collectACEs :: "node \<Rightarrow> string list \<Rightarrow> ace list \<Rightarrow> ace list \<Rightarrow> ace list" where
  "collectACEs n principals [] collected = collected"
| "collectACEs n principals (a # acl) collected =
     collectACEs n principals acl
       (if acePrincipal a = ''{DAV:}owner'' then
          (case getOwner n of
             None \<Rightarrow> collected
           | Some owner \<Rightarrow>
               if owner \<noteq> [] \<and> owner \<in> set principals then collected @ [a] else collected)
        else if acePrincipal a = ''{DAV:}all'' \<or> acePrincipal a = ''{DAV:}authenticated'' then
          collected @ [a]
        else if acePrincipal a = ''{DAV:}unauthenticated'' then collected
        else if acePrincipal a \<in> set principals then collected @ [a]
        else collected)"

text \<open>
  The \<^verbatim>\<open>while (collected.length)\<close> loop. \<^verbatim>\<open>collected\<close> is used as a stack that holds
  ACEs at first and entries of the flat table later (\<^verbatim>\<open>flat[subPriv]\<close>, which is
  \<^verbatim>\<open>undefined\<close> for a name the table lacks); the loop reads only the
  \<^verbatim>\<open>privilege\<close> of what it pops. The stack is a list whose head is the top, that is, the
  last element of the JavaScript array. \<open>flat\<close> is what the callback received: \<open>None\<close> is
  \<^verbatim>\<open>undefined\<close>. The loop has no bound of its own, so it is a partial function: \<open>None\<close>
  is a loop that never ends.
\<close>

datatype stackItem = AceItem ace | FlatItem flatPriv | UndefinedItem

fun itemPrivilege :: "stackItem \<Rightarrow> string option" where
  "itemPrivilege (AceItem a) = Some (privilege a)"
| "itemPrivilege (FlatItem f) = Some (fp_privilege f)"
| "itemPrivilege UndefinedItem = None"

definition flatItem :: "flatTable \<Rightarrow> string \<Rightarrow> stackItem" where
  "flatItem table subPriv = (case table subPriv of None \<Rightarrow> UndefinedItem | Some f \<Rightarrow> FlatItem f)"

partial_function (option) deductAggregated ::
  "flatTable option \<Rightarrow> stackItem list \<Rightarrow> string list \<Rightarrow> (jsError + string list) option" where
  "deductAggregated flat collected collected2 =
     (case collected of
        [] \<Rightarrow> Some (Inr collected2)
      | current # rest \<Rightarrow>
          (case itemPrivilege current of
             None \<Rightarrow> Some (Inl (TypeError ''current''))
           | Some priv \<Rightarrow>
               (case flat of
                  None \<Rightarrow> Some (Inl (TypeError ''flat''))
                | Some table \<Rightarrow>
                    (case table priv of
                       None \<Rightarrow> Some (Inl (TypeError ''flat[current.privilege]''))
                     | Some entry \<Rightarrow>
                         deductAggregated flat
                           (rev (map (flatItem table) (aggregates entry)) @ rest)
                           (collected2 @ priv # aggregates entry)))))"

declare deductAggregated.simps [code]

text \<open>
  Modelled from the spec: \<^verbatim>\<open>Util.makeUnique\<close> lives in lib/shared/util.js, which is not
  among the sources; the spec says the result is the deduplicated union.
\<close>

definition makeUnique :: "string list \<Rightarrow> string list" where
  "makeUnique xs = remdups xs"

text \<open>The callback that \<^verbatim>\<open>getCurrentUserPrivilegeSet\<close> hands to \<^verbatim>\<open>getFlatPrivilegeSet\<close>.\<close>

definition currentUserPrivileges ::
  "flatTable option \<Rightarrow> ace list \<Rightarrow> string list option outcome option" where
  "currentUserPrivileges flat collected =
     (case deductAggregated flat (rev (map AceItem collected)) [] of
        None \<Rightarrow> None
      | Some (Inl e) \<Rightarrow> Some (Thrown e)
      | Some (Inr collected2) \<Rightarrow> Some (Yield (Some (makeUnique collected2))))"

text \<open>
  \<^verbatim>\<open>getCurrentUserPrivilegeSet\<close>. Handed a node, it calls \<^verbatim>\<open>gotNode()\<close> before
  \<^verbatim>\<open>var self = this\<close> has run, and \<^verbatim>\<open>gotNode\<close> starts with \<^verbatim>\<open>self.getACL\<close>.
\<close>

definition getCurrentUserPrivilegeSet_gotNode ::
  "plugin \<Rightarrow> node \<Rightarrow> (string list option outcome \<times> plugin) option" where
  "getCurrentUserPrivilegeSet_gotNode self n =
     (case getACL self (ByNode n) of
        Inl err \<Rightarrow> Some (Fail err, self)
      | Inr None \<Rightarrow> Some (Yield None, self)
      | Inr (Some acl) \<Rightarrow>
          (case getCurrentUserPrincipals self of
             (Fail err, self') \<Rightarrow> Some (Fail err, self')
           | (Thrown e, self') \<Rightarrow> Some (Thrown e, self')
           | (NoCallback, self') \<Rightarrow> Some (NoCallback, self')
           | (Yield principals, self') \<Rightarrow>
               (let collected = collectACEs n principals acl [] in
                case getFlatPrivilegeSet self' (ByNode n) of
                  Fail err \<Rightarrow> Some (Fail err, self')
                | Thrown e \<Rightarrow> Some (Thrown e, self')
                | NoCallback \<Rightarrow> Some (NoCallback, self')
                | Yield flat \<Rightarrow>
                    map_option (\<lambda>r. (r, self')) (currentUserPrivileges flat collected))))"

definition getCurrentUserPrivilegeSet ::
  "plugin \<Rightarrow> nodeArg \<Rightarrow> (string list option outcome \<times> plugin) option" where
  "getCurrentUserPrivilegeSet this arg =
     (case arg of
        ByPath path \<Rightarrow>
          (case getNodeForPath this path of
             Inl err \<Rightarrow> Some (Fail err, this)
           | Inr n \<Rightarrow> getCurrentUserPrivilegeSet_gotNode this n)
      | ByNode n \<Rightarrow> Some (Thrown (TypeError ''self''), this))"

subsection \<open>checkPrivileges and the beforeMethod hook\<close>

text \<open>"array|string privileges": a lone privilege is wrapped into an array.\<close>

datatype privilegesArg = One string | Many "string list"

fun toArray :: "privilegesArg \<Rightarrow> string list" where
  "toArray (One priv) = [priv]"
| "toArray (Many privs) = privs"

text \<open>
  \<^verbatim>\<open>privileges.filter(function(priv) { return acl.indexOf(priv) === -1; })\<close>, where \<open>acl\<close>
  is what \<^verbatim>\<open>getCurrentUserPrivilegeSet\<close> delivered: \<open>None\<close> is \<^verbatim>\<open>undefined\<close>, and
  \<^verbatim>\<open>undefined.indexOf\<close> raises a TypeError at the first privilege tested.
\<close>

fun filterFailed :: "string list option \<Rightarrow> string list \<Rightarrow> jsError + string list" where
  "filterFailed acl [] = Inr []"
| "filterFailed acl (priv # rest) =
     (case acl of
        None \<Rightarrow> Inl (TypeError ''acl'')
      | Some granted \<Rightarrow>
          (case filterFailed acl rest of
             Inl e \<Rightarrow> Inl e
           | Inr failed \<Rightarrow> Inr (if priv \<notin> set granted then priv # failed else failed)))"

text \<open>
  The callback \<^verbatim>\<open>function(err, acl)\<close> of \<^verbatim>\<open>checkPrivileges\<close>, applied to the outcome of
  \<^verbatim>\<open>getCurrentUserPrivilegeSet\<close>. Its last statement is \<^verbatim>\<open>return true\<close>: the callback
  of \<^verbatim>\<open>checkPrivileges\<close> is not called on that path.
\<close>

definition checkPrivileges_callback ::
  "plugin \<Rightarrow> string \<Rightarrow> string list \<Rightarrow> string list option outcome \<Rightarrow> bool outcome" where
  "checkPrivileges_callback self uri privileges r =
     (case r of
        Fail err \<Rightarrow> Fail err
      | Thrown e \<Rightarrow> Thrown e
      | NoCallback \<Rightarrow> NoCallback
      | Yield acl \<Rightarrow>
          if acl \<noteq> None then
            (if allowAccessToNodesWithoutACL self then Yield True
             else Fail (NeedPrivileges uri privileges))
          else (case filterFailed acl privileges of
                  Inl e \<Rightarrow> Thrown e
                | Inr failed \<Rightarrow>
                    if failed \<noteq> [] then Fail (NeedPrivileges uri failed) else NoCallback))"

definition checkPrivileges ::
  "plugin \<Rightarrow> string \<Rightarrow> privilegesArg \<Rightarrow> nat option \<Rightarrow> (bool outcome \<times> plugin) option" where
  "checkPrivileges this uri privileges recursion =
     (let privileges = toArray privileges;
          recursion = (case recursion of
                         None \<Rightarrow> R_PARENT
                       | Some r \<Rightarrow> if r = 0 then R_PARENT else r)
      in map_option (\<lambda>(r, this'). (checkPrivileges_callback this' uri privileges r, this'))
           (getCurrentUserPrivilegeSet this (ByPath uri)))"

text \<open>
  What an event handler does with \<^verbatim>\<open>e.next\<close>: calls it with no error, calls it with an
  error, raises, or never calls it.
\<close>

datatype eventResult = Next "exc option" | Raised jsError | NeverNext

fun viaNext :: "bool outcome \<Rightarrow> eventResult" where
  "viaNext (Yield _) = Next None"
| "viaNext (Fail err) = Next (Some err)"
| "viaNext (Thrown e) = Raised e"
| "viaNext NoCallback = NeverNext"

definition beforeMethod :: "plugin \<Rightarrow> string \<Rightarrow> string \<Rightarrow> (eventResult \<times> plugin) option" where
  "beforeMethod this method uri =
     (case getNodeForPath this uri of
        Inl err \<Rightarrow> Some (Next None, this)
      | Inr n \<Rightarrow>
          if method = ''GET'' \<or> method = ''HEAD'' \<or> method = ''OPTIONS'' then
            map_option (apfst viaNext) (checkPrivileges this uri (One ''{DAV:}read'') None)
          else if method = ''PUT'' \<or> method = ''LOCK'' \<or> method = ''UNLOCK'' then
            map_option (apfst viaNext) (checkPrivileges this uri (One ''{DAV:}write-content'') None)
          else if method = ''PROPPATCH'' then
            map_option (apfst viaNext)
              (checkPrivileges this uri (One ''{DAV:}write-properties'') None)
          else if method = ''ACL'' then
            map_option (apfst viaNext) (checkPrivileges this uri (One ''{DAV:}write-acl'') None)
          else if method = ''COPY'' \<or> method = ''MOVE'' then
            map_option (apfst viaNext)
              (checkPrivileges this uri (One ''{DAV:}read'') (Some R_RECURSIVE))
          else Some (Next None, this))"

subsection \<open>The ACL method\<close>

text \<open>
  \<^verbatim>\<open>httpACL\<close> is still written in the synchronous style: it takes what a call returns
  and lets exceptions pass. Its calls \<^verbatim>\<open>this.getACL(node)\<close> and
  \<^verbatim>\<open>this.getFlatPrivilegeSet(node)\<close> go to the functions of this file, modelled above:
  an error they would hand to their callback is the exception of the call, a runtime
  error they raise is raised, and a value they would deliver is the value of the call.
  What ends \<^verbatim>\<open>httpACL\<close> early is an exception of the server or a JavaScript runtime
  error. The request body arrives parsed (\<open>requested\<close>).
\<close>

datatype raised = Exception exc | RuntimeError jsError

fun checkProtected :: "ace list \<Rightarrow> ace list \<Rightarrow> exc + unit" where
  "checkProtected [] newAcl = Inr ()"
| "checkProtected (oldAce # oldAcl) newAcl =
     (if \<not> protected oldAce then checkProtected oldAcl newAcl
      else if list_ex (\<lambda>newAce. privilege newAce = privilege oldAce \<and>
                               acePrincipal newAce = acePrincipal oldAce \<and>
                               protected newAce) newAcl
      then checkProtected oldAcl newAcl
      else Inl AceConflict)"

text \<open>
  The second loop. \<open>supportedPrivileges\<close> is what the call of \<^verbatim>\<open>getFlatPrivilegeSet\<close>
  left in the variable; \<open>None\<close> is \<^verbatim>\<open>undefined\<close>, and indexing it raises.
\<close>

fun checkNewAces :: "plugin \<Rightarrow> flatTable option \<Rightarrow> ace list \<Rightarrow> raised + unit" where
  "checkNewAces this supportedPrivileges [] = Inr ()"
| "checkNewAces this supportedPrivileges (newAce # rest) =
     (case supportedPrivileges of
        None \<Rightarrow> Inl (RuntimeError (TypeError ''supportedPrivileges''))
      | Some table \<Rightarrow>
          (case table (privilege newAce) of
             None \<Rightarrow> Inl (Exception (NotSupportedPrivilege (privilege newAce)))
           | Some entry \<Rightarrow>
               if abstract entry then Inl (Exception (NoAbstract (privilege newAce)))
               else (case getNodeForPath this (acePrincipal newAce) of
                       Inl err \<Rightarrow>
                         if err = NotFound
                         then Inl (Exception (NotRecognizedPrincipal (acePrincipal newAce)))
                         else Inl (Exception err)
                     | Inr p \<Rightarrow>
                         if \<not> jsDAVACL_iPrincipal p
                         then Inl (Exception (NotRecognizedPrincipal (acePrincipal newAce)))
                         else checkNewAces this supportedPrivileges rest)))"

text \<open>
  Modelled from the spec: \<^verbatim>\<open>node.setACL\<close> belongs to the node classes, which are not among
  the sources; it replaces the ACL the node stores.
\<close>

definition setACL :: "plugin \<Rightarrow> string \<Rightarrow> node \<Rightarrow> ace list \<Rightarrow> plugin" where
  "setACL this uri n newAcl =
     this\<lparr>getNodeForPath := (getNodeForPath this)(uri := Inr (n\<lparr>nodeGetACL := Inr newAcl\<rparr>))\<rparr>"


text \<open>
  The part of \<^verbatim>\<open>httpACL\<close> from its first loop on: the protected entries of the old ACL,
  the checks of the new entries, and \<^verbatim>\<open>node.setACL(newAcl)\<close> as the last statement.
\<close>

definition httpACL_validate ::
  "plugin \<Rightarrow> string \<Rightarrow> node \<Rightarrow> ace list \<Rightarrow> flatTable option \<Rightarrow> ace list
     \<Rightarrow> (raised + unit) \<times> plugin" where
  "httpACL_validate this uri n oldAcl supportedPrivileges newAcl =
     (case checkProtected oldAcl newAcl of
        Inl e \<Rightarrow> (Inl (Exception e), this)
      | Inr _ \<Rightarrow>
          (case checkNewAces this supportedPrivileges newAcl of
             Inl e \<Rightarrow> (Inl e, this)
           | Inr _ \<Rightarrow> (Inr (), setACL this uri n newAcl)))"


subsection \<open>The rules as the spec words them\<close>

text \<open>
  The spec's matching rule for one ACE: the owner token matches iff the declared owner is
  in the caller's principal set; the tokens all and authenticated always match; the token
  unauthenticated never matches; any other principal matches iff it is in the caller's
  principal set.
\<close>

definition aceMatches :: "node \<Rightarrow> string list \<Rightarrow> ace \<Rightarrow> bool" where
  "aceMatches n principals a =
     (if acePrincipal a = ''{DAV:}owner'' then
        (case getOwner n of None \<Rightarrow> False | Some owner \<Rightarrow> owner \<in> set principals)
      else if acePrincipal a = ''{DAV:}all'' \<or> acePrincipal a = ''{DAV:}authenticated'' then True
      else if acePrincipal a = ''{DAV:}unauthenticated'' then False
      else acePrincipal a \<in> set principals)"

text \<open>
  A flat table is indexed by privilege name: the entry stored under a name carries that
  name. \<open>aggregatesTransitively table p q\<close>: the table leads from \<open>p\<close> to \<open>q\<close> through
  one or more steps from a privilege to one of its aggregates.
\<close>

definition indexedByName :: "flatTable \<Rightarrow> bool" where
  "indexedByName table = (\<forall>name entry. table name = Some entry \<longrightarrow> fp_privilege entry = name)"

inductive aggregatesTransitively :: "flatTable \<Rightarrow> string \<Rightarrow> string \<Rightarrow> bool" for table where
  direct: "table p = Some entry \<Longrightarrow> q \<in> set (aggregates entry)
     \<Longrightarrow> aggregatesTransitively table p q"
| further: "aggregatesTransitively table p q \<Longrightarrow> table q = Some entry
     \<Longrightarrow> r \<in> set (aggregates entry) \<Longrightarrow> aggregatesTransitively table p r"

text \<open>
  The spec's three checks on a requested ACE: its privilege is in the flat table, the
  privilege is not abstract, and its principal resolves to a node that can act as a
  principal. \<open>aceError\<close> is the error of the first of the three that fails; a lookup
  error other than not-found is passed on as it is.
\<close>

definition acePasses :: "plugin \<Rightarrow> flatTable \<Rightarrow> ace \<Rightarrow> bool" where
  "acePasses this supportedPrivileges a =
     (case supportedPrivileges (privilege a) of
        None \<Rightarrow> False
      | Some entry \<Rightarrow>
          \<not> abstract entry \<and>
          (case getNodeForPath this (acePrincipal a) of
             Inl err \<Rightarrow> False
           | Inr p \<Rightarrow> jsDAVACL_iPrincipal p))"

definition aceError :: "plugin \<Rightarrow> flatTable \<Rightarrow> ace \<Rightarrow> exc" where
  "aceError this supportedPrivileges a =
     (case supportedPrivileges (privilege a) of
        None \<Rightarrow> NotSupportedPrivilege (privilege a)
      | Some entry \<Rightarrow>
          if abstract entry then NoAbstract (privilege a)
          else (case getNodeForPath this (acePrincipal a) of
                  Inl err \<Rightarrow> if err = NotFound then NotRecognizedPrincipal (acePrincipal a) else err
                | Inr p \<Rightarrow> NotRecognizedPrincipal (acePrincipal a)))"

subsection \<open>The invariant and the measure of the aggregation loop\<close>

text \<open>
  The invariant: every privilege already written to \<^verbatim>\<open>collected2\<close> either has all its
  aggregates there as well (\<open>closedUnder\<close>), or is the privilege of an item still on the
  stack (\<open>pendingOn\<close>). The measure: the ranks of the items on the stack, where a rank is
  any function that decreases from a privilege to its aggregates.
\<close>

definition closedUnder :: "flatTable \<Rightarrow> string list \<Rightarrow> string \<Rightarrow> bool" where
  "closedUnder table privs p =
     (\<forall>entry. table p = Some entry \<longrightarrow> set (aggregates entry) \<subseteq> set privs)"

definition pendingOn :: "stackItem list \<Rightarrow> string \<Rightarrow> bool" where
  "pendingOn stack p = (Some p \<in> itemPrivilege ` set stack)"

definition itemRank :: "(string \<Rightarrow> nat) \<Rightarrow> stackItem \<Rightarrow> nat" where
  "itemRank rank it = (case itemPrivilege it of None \<Rightarrow> 0 | Some p \<Rightarrow> Suc (rank p))"

subsection \<open>A small server to run the plugin on\<close>

text \<open>
  The resource of the spec's example scenario (\<open>doc.txt\<close>, with its two ACEs), a
  resource with one protected ACE (\<open>notes.txt\<close>), the same with a
  \<^verbatim>\<open>getSupportedPrivilegeSet\<close> method of its own that delivers nothing, so that the
  default tree is taken (\<open>shared.txt\<close>), a file without ACL support, the principal
  \<open>principals/alice\<close> without group memberships, two principals that list each other as
  their group, and a path whose lookup fails with an error other than not-found. The
  logged-in user is \<open>alice\<close>. \<open>exampleFlat\<close> is a table as the doc comment of
  \<^verbatim>\<open>getFlatPrivilegeSet\<close> describes it for the default privilege tree, written out by
  hand: the code never builds it.
\<close>

definition principalNode :: "string list \<Rightarrow> node" where
  "principalNode memberships =
     \<lparr>jsDAVACL_iACL = False, jsDAVACL_iPrincipal = True, nodeGetACL = Inr [],
      getOwner = None, getGroupMembership = Inr memberships,
      nodeGetSupportedPrivilegeSet = None\<rparr>"

definition docAcl :: "ace list" where
  "docAcl =
     [\<lparr>acePrincipal = ''principals/alice'', privilege = ''{DAV:}write'', protected = False\<rparr>,
      \<lparr>acePrincipal = ''{DAV:}authenticated'', privilege = ''{DAV:}read'', protected = True\<rparr>]"

definition docNode :: node where
  "docNode =
     \<lparr>jsDAVACL_iACL = True, jsDAVACL_iPrincipal = False, nodeGetACL = Inr docAcl,
      getOwner = Some ''principals/alice'', getGroupMembership = Inr [],
      nodeGetSupportedPrivilegeSet = None\<rparr>"

definition notesAcl :: "ace list" where
  "notesAcl =
     [\<lparr>acePrincipal = ''principals/alice'', privilege = ''{DAV:}write'', protected = True\<rparr>]"

definition notesNode :: node where
  "notesNode =
     \<lparr>jsDAVACL_iACL = True, jsDAVACL_iPrincipal = False, nodeGetACL = Inr notesAcl,
      getOwner = None, getGroupMembership = Inr [],
      nodeGetSupportedPrivilegeSet = None\<rparr>"

definition sharedNode :: node where
  "sharedNode =
     \<lparr>jsDAVACL_iACL = True, jsDAVACL_iPrincipal = False, nodeGetACL = Inr notesAcl,
      getOwner = None, getGroupMembership = Inr [],
      nodeGetSupportedPrivilegeSet = Some (Inr None)\<rparr>"

definition plainNode :: node where
  "plainNode =
     \<lparr>jsDAVACL_iACL = False, jsDAVACL_iPrincipal = False, nodeGetACL = Inr [],
      getOwner = None, getGroupMembership = Inr [],
      nodeGetSupportedPrivilegeSet = None\<rparr>"

definition exampleTree :: "string \<Rightarrow> exc + node" where
  "exampleTree path =
     (if path = ''doc.txt'' then Inr docNode
      else if path = ''notes.txt'' then Inr notesNode
      else if path = ''shared.txt'' then Inr sharedNode
      else if path = ''plain.txt'' then Inr plainNode
      else if path = ''principals/alice'' then Inr (principalNode [])
      else if path = ''principals/a'' then Inr (principalNode [''principals/b''])
      else if path = ''principals/b'' then Inr (principalNode [''principals/a''])
      else if path = ''locked'' then Inl (OtherError ''backend unavailable'')
      else Inl NotFound)"

definition examplePlugin :: "bool \<Rightarrow> plugin" where
  "examplePlugin allow =
     \<lparr>getNodeForPath = exampleTree, authGetCurrentUser = Some (Inr (Some ''alice'')),
      calculateUri = (\<lambda>u. u), allowAccessToNodesWithoutACL = allow,
      defaultUsernamePath = ''principals'', adminPrincipals = [],
      principalMembershipCache = Map.empty\<rparr>"

definition flatEntry :: "string \<Rightarrow> bool \<Rightarrow> string list \<Rightarrow> string option \<Rightarrow> string \<times> flatPriv" where
  "flatEntry name isAbstract aggs conc =
     (name, \<lparr>fp_privilege = name, abstract = isAbstract, aggregates = aggs, concrete = conc\<rparr>)"

definition exampleFlat :: flatTable where
  "exampleFlat = map_of
     [flatEntry ''{DAV:}all'' True [''{DAV:}read'', ''{DAV:}write''] None,
      flatEntry ''{DAV:}read'' False
        [''{DAV:}read-acl'', ''{DAV:}read-current-user-privilege-set''] (Some ''{DAV:}read''),
      flatEntry ''{DAV:}read-acl'' True [] (Some ''{DAV:}read''),
      flatEntry ''{DAV:}read-current-user-privilege-set'' True [] (Some ''{DAV:}read''),
      flatEntry ''{DAV:}write'' False
        [''{DAV:}write-acl'', ''{DAV:}write-properties'', ''{DAV:}write-content'',
         ''{DAV:}bind'', ''{DAV:}unbind'', ''{DAV:}unlock''] (Some ''{DAV:}write''),
      flatEntry ''{DAV:}write-acl'' True [] (Some ''{DAV:}write''),
      flatEntry ''{DAV:}write-properties'' True [] (Some ''{DAV:}write''),
      flatEntry ''{DAV:}write-content'' True [] (Some ''{DAV:}write''),
      flatEntry ''{DAV:}bind'' True [] (Some ''{DAV:}write''),
      flatEntry ''{DAV:}unbind'' True [] (Some ''{DAV:}write''),
      flatEntry ''{DAV:}unlock'' True [] (Some ''{DAV:}write'')]"

text \<open>
  ACEs for the examples: entries for the owner, for unauthenticated callers and for another
  user, to match against; and entries to request for \<open>notes.txt\<close>: a grant of read to
  alice, a grant of read to a principal that does not exist, a grant of the abstract
  \<open>{DAV:}all\<close>, and a grant of a privilege that is in no table.
\<close>

definition ownerAce :: ace where
  "ownerAce = \<lparr>acePrincipal = ''{DAV:}owner'', privilege = ''{DAV:}all'', protected = False\<rparr>"

definition unauthenticatedAce :: ace where
  "unauthenticatedAce =
     \<lparr>acePrincipal = ''{DAV:}unauthenticated'', privilege = ''{DAV:}all'', protected = False\<rparr>"

definition bobAce :: ace where
  "bobAce = \<lparr>acePrincipal = ''principals/bob'', privilege = ''{DAV:}all'', protected = False\<rparr>"





section \<open>Properties\<close>

subsection \<open>checkPrivileges\<close>

text \<open>
  C1. The claim: on a resource without ACL support, \<^verbatim>\<open>checkPrivileges\<close> grants when
  \<^verbatim>\<open>allowAccessToNodesWithoutACL\<close> is set and refuses with NeedPrivileges otherwise, and the
  flag plays no part on resources with ACL support. The code tests \<^verbatim>\<open>if (acl)\<close> where the
  claim needs \<^verbatim>\<open>if (!acl)\<close>: when no privilege set was delivered the flag is never read,
  and the filter over the required privileges raises a TypeError at the first of them (with
  none required, the callback is never called). On \<open>plain.txt\<close> the result is that
  TypeError for either value of the flag.
\<close>

theorem checkPrivileges_without_acl_support_raises:
  "checkPrivileges_callback self uri (priv # privs) (Yield None) = Thrown (TypeError ''acl'')
   \<and> checkPrivileges_callback self uri [] (Yield None) = NoCallback
   \<and> map_option fst (checkPrivileges (examplePlugin True) ''plain.txt'' (One ''{DAV:}read'') None)
       = Some (Thrown (TypeError ''acl''))
   \<and> map_option fst (checkPrivileges (examplePlugin False) ''plain.txt'' (One ''{DAV:}read'') None)
       = Some (Thrown (TypeError ''acl''))"
proof -
  have a: "checkPrivileges_callback self uri (priv # privs) (Yield None) = Thrown (TypeError ''acl'')"
    by (simp add: checkPrivileges_callback_def)
  have b: "checkPrivileges_callback self uri [] (Yield None) = NoCallback"
    by (simp add: checkPrivileges_callback_def)
  have c: "map_option fst (checkPrivileges (examplePlugin True) ''plain.txt'' (One ''{DAV:}read'') None)
       = Some (Thrown (TypeError ''acl''))"
    by code_simp
  have d: "map_option fst (checkPrivileges (examplePlugin False) ''plain.txt'' (One ''{DAV:}read'') None)
       = Some (Thrown (TypeError ''acl''))"
    by code_simp
  from a b c d show ?thesis by blast
qed

text \<open>
  C2. The claim: on a resource with ACL support, \<^verbatim>\<open>checkPrivileges\<close> succeeds exactly when
  every required privilege is in the caller's effective set, and otherwise fails with
  NeedPrivileges naming the missing ones. In the code, a delivered privilege set sends the
  callback into the branch of the flag: the set is never compared with the required
  privileges, the answer is \<open>true\<close> or NeedPrivileges with all of them. On \<open>doc.txt\<close> no
  set is delivered at all (the flat table cannot be built), so the call raises.
\<close>

theorem checkPrivileges_with_acl_support_reads_flag_only:
  "checkPrivileges_callback self uri privs (Yield (Some acl))
     = (if allowAccessToNodesWithoutACL self then Yield True
        else Fail (NeedPrivileges uri privs))
   \<and> checkPrivileges_callback (examplePlugin True) ''doc.txt'' [''{DAV:}write'']
         (Yield (Some [''{DAV:}read''])) = Yield True
   \<and> checkPrivileges_callback (examplePlugin False) ''doc.txt'' [''{DAV:}read'']
         (Yield (Some [''{DAV:}read''])) = Fail (NeedPrivileges ''doc.txt'' [''{DAV:}read''])
   \<and> map_option fst (checkPrivileges (examplePlugin True) ''doc.txt'' (One ''{DAV:}write-acl'') None)
       = Some (Thrown (TypeError ''self''))"
proof -
  have a: "checkPrivileges_callback self uri privs (Yield (Some acl))
     = (if allowAccessToNodesWithoutACL self then Yield True
        else Fail (NeedPrivileges uri privs))" for self uri privs acl
    by (simp add: checkPrivileges_callback_def)
  have b: "map_option fst (checkPrivileges (examplePlugin True) ''doc.txt'' (One ''{DAV:}write-acl'') None)
       = Some (Thrown (TypeError ''self''))"
    by code_simp
  have c: "checkPrivileges_callback (examplePlugin True) ''doc.txt'' [''{DAV:}write'']
         (Yield (Some [''{DAV:}read''])) = Yield True"
    by (simp add: a examplePlugin_def)
  have d: "checkPrivileges_callback (examplePlugin False) ''doc.txt'' [''{DAV:}read'']
         (Yield (Some [''{DAV:}read''])) = Fail (NeedPrivileges ''doc.txt'' [''{DAV:}read''])"
    by (simp add: a examplePlugin_def)
  from a b c d show ?thesis by blast
qed

text \<open>
  C5. The claim: the recursion mode selects the nodes at which the privileges are checked.
  The code gives the argument its default and never reads it again: the result of
  \<^verbatim>\<open>checkPrivileges\<close> is the same for every recursion mode, and \<^verbatim>\<open>beforeMethod\<close>
  treats a COPY, which asks for the whole source tree, like a GET.
\<close>

theorem checkPrivileges_ignores_recursion:
  "checkPrivileges this uri privileges recursion = checkPrivileges this uri privileges recursion'
   \<and> checkPrivileges this uri privileges (Some R_RECURSIVE)
       = checkPrivileges this uri privileges (Some R_PARENT)
   \<and> checkPrivileges this uri privileges (Some R_RECURSIVEPARENTS)
       = checkPrivileges this uri privileges None
   \<and> beforeMethod this ''COPY'' uri = beforeMethod this ''GET'' uri"
proof -
  have a: "checkPrivileges this uri privileges r = checkPrivileges this uri privileges r'"
    for privileges r r'
    by (simp add: checkPrivileges_def)
  have b: "beforeMethod this ''COPY'' uri = beforeMethod this ''GET'' uri"
    by (simp add: beforeMethod_def a [of _ "Some R_RECURSIVE" None] split: sum.splits)
  from a b show ?thesis by blast
qed

text \<open>
  C10. When the lookup of the request URI fails, with whatever error, \<^verbatim>\<open>beforeMethod\<close>
  calls \<^verbatim>\<open>e.next()\<close> without an error for every method, and nothing else happens: no
  privilege is checked and the plugin is left as it was.
\<close>

theorem beforeMethod_lookup_error_continues:
  "getNodeForPath this uri = Inl err \<Longrightarrow> beforeMethod this method uri = Some (Next None, this)"
  by (simp add: beforeMethod_def)

theorem beforeMethod_lookup_error_continues_witness:
  "getNodeForPath (examplePlugin False) ''locked'' = Inl (OtherError ''backend unavailable'')
   \<and> beforeMethod (examplePlugin False) ''PUT'' ''locked'' = Some (Next None, examplePlugin False)
   \<and> getNodeForPath (examplePlugin False) ''missing'' = Inl NotFound
   \<and> beforeMethod (examplePlugin False) ''ACL'' ''missing'' = Some (Next None, examplePlugin False)"
proof -
  have a: "getNodeForPath (examplePlugin False) ''locked'' = Inl (OtherError ''backend unavailable'')"
    by (simp add: examplePlugin_def exampleTree_def)
  have b: "getNodeForPath (examplePlugin False) ''missing'' = Inl NotFound"
    by (simp add: examplePlugin_def exampleTree_def)
  show ?thesis
    using a b beforeMethod_lookup_error_continues [OF a, of "''PUT''"]
      beforeMethod_lookup_error_continues [OF b, of "''ACL''"]
    by simp
qed

subsection \<open>Group membership\<close>

text \<open>
  C3. The claim: membership resolution ends, also on a cycle, and returns every reachable
  group once. The code does end, but as soon as a principal reports a group the test on
  \<^verbatim>\<open>pricipals\<close> raises a ReferenceError, before anything is added to the result: for
  \<open>principals/a\<close>, whose group \<open>principals/b\<close> lists \<open>principals/a\<close> in turn, no closure
  is returned, and none is cached.
\<close>

theorem getPrincipalMembership_raises_on_first_group:
  "forEachMembership (groupMember # rest) (check, principals) = Inl (ReferenceError ''pricipals'')
   \<and> getPrincipalMembership (examplePlugin True) ''principals/a''
       = (Thrown (ReferenceError ''pricipals''), examplePlugin True)
   \<and> fst (getPrincipalMembership (examplePlugin True) ''principals/alice'') = Yield []"
proof -
  have a: "forEachMembership (groupMember # rest) (check, principals) = Inl (ReferenceError ''pricipals'')"
    by (simp add: readUndeclared_def)
  have b: "getPrincipalMembership (examplePlugin True) ''principals/a''
       = (Thrown (ReferenceError ''pricipals''), examplePlugin True)"
    by (simp add: getPrincipalMembership_def examplePlugin_def exampleTree_def principalNode_def
        readUndeclared_def)
  have c: "fst (getPrincipalMembership (examplePlugin True) ''principals/alice'') = Yield []"
    by (simp add: getPrincipalMembership_def examplePlugin_def exampleTree_def principalNode_def
        checkedAll_def)
  from a b c show ?thesis by blast
qed

subsection \<open>The flat privilege table\<close>

lemma getFPSTraverse_raises:
  "getFPSTraverse privs isConcrete flat = Inl (ReferenceError ''myPriv'')"
  by (cases privs) (simp add: assignUndeclared_def)

lemma getFlatPrivilegeSet_fails_or_raises:
  "(\<exists>err. getFlatPrivilegeSet this arg = Fail err)
   \<or> (\<exists>e. getFlatPrivilegeSet this arg = Thrown e)"
  by (cases "getSupportedPrivilegeSet this arg")
     (auto simp: getFlatPrivilegeSet_def getFPSTraverse_raises getSupportedPrivilegeSet_def
        getSupportedPrivilegeSet_gotNode_def split: nodeArg.splits sum.splits option.splits)

text \<open>
  C4. The claim: flattening is total and yields a table with every privilege name of the
  tree once, each with its immediate children as aggregates. The traversal raises a
  ReferenceError at its first statement, for every tree; and it has no \<^verbatim>\<open>return\<close>, so on
  no path does \<^verbatim>\<open>getFlatPrivilegeSet\<close> hand a table to its callback.
\<close>

theorem getFlatPrivilegeSet_delivers_no_table:
  "getFPSTraverse privs isConcrete flat = Inl (ReferenceError ''myPriv'')
   \<and> getFlatPrivilegeSet this arg \<noteq> Yield (Some table)
   \<and> getSupportedPrivilegeSet (examplePlugin True) (ByPath ''doc.txt'')
       = Yield getDefaultSupportedPrivilegeSet
   \<and> getFlatPrivilegeSet (examplePlugin True) (ByPath ''doc.txt'')
       = Thrown (ReferenceError ''myPriv'')"
proof -
  have a: "getFPSTraverse privs isConcrete flat = Inl (ReferenceError ''myPriv'')"
    for privs isConcrete flat
    by (cases privs) (simp add: assignUndeclared_def)
  have b: "getFlatPrivilegeSet this arg \<noteq> Yield (Some table)"
    by (simp add: getFlatPrivilegeSet_def a split: outcome.splits)
  have c: "getSupportedPrivilegeSet (examplePlugin True) (ByPath ''doc.txt'')
       = Yield getDefaultSupportedPrivilegeSet"
    by (simp add: getSupportedPrivilegeSet_def getSupportedPrivilegeSet_gotNode_def
        examplePlugin_def exampleTree_def docNode_def)
  have d: "getFlatPrivilegeSet (examplePlugin True) (ByPath ''doc.txt'')
       = Thrown (ReferenceError ''myPriv'')"
    by (simp add: getFlatPrivilegeSet_def c a)
  from a b c d show ?thesis by blast
qed

subsection \<open>Matching ACEs against the caller\<close>

lemma collectACEs_filter:
  "[] \<notin> set principals \<Longrightarrow>
   collectACEs n principals acl collected = collected @ filter (aceMatches n principals) acl"
proof (induction acl arbitrary: collected)
  case Nil
  then show ?case by simp
next
  case (Cons a acl)
  then show ?case
    by (auto simp: aceMatches_def split: option.splits)
qed

text \<open>
  C7. For a caller whose principal set holds no empty identifier, the ACEs that
  \<^verbatim>\<open>getCurrentUserPrivilegeSet\<close> collects from an ACL are exactly those the token rules
  select, in the order of the ACL: an owner entry iff the node's owner is in the principal
  set, every all and authenticated entry, no unauthenticated entry, and any other entry
  iff its principal is in the principal set.
\<close>

theorem collectACEs_follows_token_rules:
  "[] \<notin> set principals \<Longrightarrow>
   collectACEs n principals acl [] = filter (aceMatches n principals) acl"
  by (simp add: collectACEs_filter)

theorem collectACEs_follows_token_rules_witness:
  "[] \<notin> set [''principals/alice'']
   \<and> collectACEs docNode [''principals/alice'']
        (unauthenticatedAce # bobAce # docAcl @ [ownerAce]) []
       = filter (aceMatches docNode [''principals/alice''])
           (unauthenticatedAce # bobAce # docAcl @ [ownerAce])
   \<and> collectACEs docNode [''principals/alice'']
        (unauthenticatedAce # bobAce # docAcl @ [ownerAce]) []
       = docAcl @ [ownerAce]"
proof -
  have h: "[] \<notin> set [''principals/alice'']" by simp
  have v: "filter (aceMatches docNode [''principals/alice''])
             (unauthenticatedAce # bobAce # docAcl @ [ownerAce]) = docAcl @ [ownerAce]"
    by (simp add: aceMatches_def docNode_def docAcl_def unauthenticatedAce_def bobAce_def
        ownerAce_def)
  show ?thesis
    using collectACEs_follows_token_rules [OF h, of docNode
        "unauthenticatedAce # bobAce # docAcl @ [ownerAce]"] v
    by simp
qed

subsection \<open>Closure under aggregation\<close>

lemma deductAggregated_closed:
  assumes run: "deductAggregated flat stack c2 = Some r"
  shows "flat = Some table \<Longrightarrow> indexedByName table \<Longrightarrow> r = Inr res \<Longrightarrow>
   (\<forall>p\<in>set c2. closedUnder table c2 p \<or> pendingOn stack p) \<Longrightarrow>
   set c2 \<subseteq> set res \<and> (\<forall>p\<in>set res. closedUnder table res p)"
proof (induction rule: deductAggregated.raw_induct [OF _ run])
  case (1 deduct flat stack c2 r)
  show ?case
  proof (cases stack)
    case Nil
    with 1 show ?thesis by (auto simp: pendingOn_def)
  next
    case (Cons current rest)
    from "1.hyps" Cons "1.prems"(1,3) obtain priv entry where
      p: "itemPrivilege current = Some priv" and e: "table priv = Some entry"
      and rec: "deduct flat (rev (map (flatItem table) (aggregates entry)) @ rest)
                  (c2 @ priv # aggregates entry) = Some r"
      by (auto split: option.splits)
    let ?stack = "rev (map (flatItem table) (aggregates entry)) @ rest"
    let ?c2 = "c2 @ priv # aggregates entry"
    have inv: "\<forall>q\<in>set ?c2. closedUnder table ?c2 q \<or> pendingOn ?stack q"
    proof
      fix q assume q: "q \<in> set ?c2"
      show "closedUnder table ?c2 q \<or> pendingOn ?stack q"
      proof (cases "q = priv")
        case True
        then show ?thesis using e by (auto simp: closedUnder_def)
      next
        case False
        show ?thesis
        proof (cases "q \<in> set (aggregates entry)")
          case True
          show ?thesis
          proof (cases "table q")
            case None
            then show ?thesis by (simp add: closedUnder_def)
          next
            case (Some eq)
            with "1.prems"(2) have "fp_privilege eq = q" by (simp add: indexedByName_def)
            with Some True have "pendingOn ?stack q"
              by (force simp: pendingOn_def flatItem_def image_iff)
            then show ?thesis ..
          qed
        next
          case notagg: False
          with q False have "q \<in> set c2" by auto
          with "1.prems"(4) have "closedUnder table c2 q \<or> pendingOn stack q" by blast
          then show ?thesis
          proof
            assume "closedUnder table c2 q"
            then have "closedUnder table ?c2 q"
              by (auto simp: closedUnder_def)
            then show ?thesis ..
          next
            assume "pendingOn stack q"
            with Cons p False have "pendingOn rest q" by (auto simp: pendingOn_def)
            then have "pendingOn ?stack q" by (auto simp: pendingOn_def)
            then show ?thesis ..
          qed
        qed
      qed
    qed
    from "1.IH" [OF rec "1.prems"(1,2,3) inv] show ?thesis by auto
  qed
qed

lemma deductAggregated_contains:
  assumes run: "deductAggregated flat stack c2 = Some r"
  shows "r = Inr res \<Longrightarrow>
    set c2 \<subseteq> set res \<and> (\<forall>it\<in>set stack. \<forall>p. itemPrivilege it = Some p \<longrightarrow> p \<in> set res)"
proof (induction rule: deductAggregated.raw_induct [OF _ run])
  case (1 deduct flat stack c2 r)
  show ?case
  proof (cases stack)
    case Nil
    with 1 show ?thesis by auto
  next
    case (Cons current rest)
    from "1.hyps" Cons "1.prems" obtain priv table entry where
      p: "itemPrivilege current = Some priv" and fl: "flat = Some table"
      and e: "table priv = Some entry"
      and rec: "deduct flat (rev (map (flatItem table) (aggregates entry)) @ rest)
                  (c2 @ priv # aggregates entry) = Some r"
      by (auto split: option.splits)
    from "1.IH" [OF rec "1.prems"] Cons p show ?thesis by auto
  qed
qed

lemma closed_transitively:
  "aggregatesTransitively table p q \<Longrightarrow>
   \<forall>p\<in>set privs. closedUnder table privs p \<Longrightarrow> p \<in> set privs \<Longrightarrow> q \<in> set privs"
  by (induction rule: aggregatesTransitively.induct) (auto simp: closedUnder_def)

text \<open>
  The loop ends whenever the aggregates of the table lead downwards: when some rank
  decreases from every privilege to each of its aggregates, as the height does in a table
  built from a tree. The measure is the multiset of the ranks of the items on the stack:
  a step replaces the popped item by items of smaller rank.
\<close>

lemma pushed_rank_less:
  fixes rank :: "string \<Rightarrow> nat"
  assumes idx: "indexedByName table"
    and down: "\<forall>p entry q. table p = Some entry \<and> q \<in> set (aggregates entry) \<longrightarrow> rank q < rank p"
    and e: "table p = Some entry" and q: "q \<in> set (aggregates entry)"
  shows "itemRank rank (flatItem table q) < Suc (rank p)"
proof (cases "table q")
  case None
  then show ?thesis by (simp add: itemRank_def flatItem_def)
next
  case (Some eq)
  with idx have "fp_privilege eq = q" by (simp add: indexedByName_def)
  moreover from down e q have "rank q < rank p" by blast
  ultimately show ?thesis using Some by (simp add: itemRank_def flatItem_def)
qed

lemma mset_map_push:
  "mset (map f (rev xs @ ys)) = mset (map f ys) + mset (map f xs)"
  by simp

lemma deductAggregated_returns:
  fixes rank :: "string \<Rightarrow> nat"
  assumes idx: "indexedByName table"
    and down: "\<forall>p entry q. table p = Some entry \<and> q \<in> set (aggregates entry) \<longrightarrow> rank q < rank p"
  shows "\<exists>r. deductAggregated (Some table) stack c2 = Some r"
proof (induction M \<equiv> "mset (map (itemRank rank) stack)" arbitrary: stack c2
    rule: wf_induct_rule [OF wf_mult [OF wf_less]])
  case (1 stack c2)
  show ?case
  proof (cases stack)
    case Nil
    then show ?thesis by (subst deductAggregated.simps) simp
  next
    case (Cons current rest)
    show ?thesis
    proof (cases "itemPrivilege current")
      case None
      with Cons show ?thesis by (subst deductAggregated.simps) simp
    next
      case (Some p)
      show ?thesis
      proof (cases "table p")
        case None
        with Cons Some show ?thesis by (subst deductAggregated.simps) simp
      next
        case e: (Some entry)
        let ?pushed = "map (flatItem table) (aggregates entry)"
        let ?stack = "rev ?pushed @ rest"
        have step: "deductAggregated (Some table) stack c2
                      = deductAggregated (Some table) ?stack (c2 @ p # aggregates entry)"
          using Cons Some e by (subst deductAggregated.simps) simp
        have M: "mset (map (itemRank rank) stack)
                   = mset (map (itemRank rank) rest) + {#Suc (rank p)#}"
          using Cons Some by (simp add: itemRank_def)
        have M': "mset (map (itemRank rank) ?stack)
                    = mset (map (itemRank rank) rest) + mset (map (itemRank rank) ?pushed)"
          by (rule mset_map_push)
        have "\<forall>k \<in> set_mset (mset (map (itemRank rank) ?pushed)).
                \<exists>j \<in> set_mset {#Suc (rank p)#}. (k, j) \<in> {(x, y). x < y}"
          using pushed_rank_less [OF idx down e] by auto
        then have less: "(mset (map (itemRank rank) rest) + mset (map (itemRank rank) ?pushed),
                    mset (map (itemRank rank) rest) + {#Suc (rank p)#}) \<in> mult {(x, y). x < y}"
          by (intro one_step_implies_mult) simp_all
        have "(mset (map (itemRank rank) ?stack), mset (map (itemRank rank) stack))
                \<in> mult {(x, y). x < y}"
          unfolding M M' by (rule less)
        from "1.hyps" [OF this] step show ?thesis by simp
      qed
    qed
  qed
qed

lemma currentUserPrivileges_returns:
  fixes rank :: "string \<Rightarrow> nat"
  assumes "indexedByName table"
    and "\<forall>p entry q. table p = Some entry \<and> q \<in> set (aggregates entry) \<longrightarrow> rank q < rank p"
  shows "\<exists>r. currentUserPrivileges (Some table) collected = Some r"
proof -
  from deductAggregated_returns [OF assms] obtain r where
    "deductAggregated (Some table) (rev (map AceItem collected)) [] = Some r"
    by blast
  then show ?thesis
    by (cases r) (simp_all add: currentUserPrivileges_def)
qed

text \<open>
  The loop by itself: whenever the callback is handed a flat table indexed by privilege
  name and returns a privilege set for the collected ACEs, that set has no duplicates,
  holds the privilege of every collected ACE, and is closed under aggregation. With
  \<open>exampleFlat\<close> and the two ACEs of \<open>doc.txt\<close> it returns the ten privileges of the
  spec's example.
\<close>

lemma currentUserPrivileges_closed_under_aggregation:
  assumes "indexedByName table"
    and "currentUserPrivileges (Some table) collected = Some (Yield (Some privs))"
  shows "distinct privs
    \<and> privilege ` set collected \<subseteq> set privs
    \<and> (\<forall>p entry. p \<in> set privs \<and> table p = Some entry
          \<longrightarrow> set (aggregates entry) \<subseteq> set privs)
    \<and> (\<forall>p q. p \<in> set privs \<and> aggregatesTransitively table p q \<longrightarrow> q \<in> set privs)"
proof -
  from assms(2) obtain c2 where
    run: "deductAggregated (Some table) (rev (map AceItem collected)) [] = Some (Inr c2)"
    and privs: "privs = makeUnique c2"
    by (auto simp: currentUserPrivileges_def split: option.splits sum.splits)
  have "\<forall>p\<in>set []. closedUnder table [] p \<or> pendingOn (rev (map AceItem collected)) p"
    by simp
  from deductAggregated_closed [OF run refl assms(1) refl this]
  have closed: "\<forall>p\<in>set c2. closedUnder table c2 p" by simp
  have sets: "set privs = set c2" by (simp add: privs makeUnique_def)
  have closed': "\<forall>p\<in>set privs. closedUnder table privs p"
    using closed sets by (simp add: closedUnder_def)
  have 1: "distinct privs" by (simp add: privs makeUnique_def)
  have 2: "privilege ` set collected \<subseteq> set privs"
  proof
    fix x assume "x \<in> privilege ` set collected"
    then obtain a where a: "a \<in> set collected" "x = privilege a" by blast
    from deductAggregated_contains [OF run refl] a have "x \<in> set c2" by auto
    then show "x \<in> set privs" by (simp add: sets)
  qed
  have 3: "\<forall>p entry. p \<in> set privs \<and> table p = Some entry
             \<longrightarrow> set (aggregates entry) \<subseteq> set privs"
    using closed' by (auto simp: closedUnder_def)
  have 4: "\<forall>p q. p \<in> set privs \<and> aggregatesTransitively table p q \<longrightarrow> q \<in> set privs"
    using closed_transitively [OF _ closed'] by blast
  from 1 2 3 4 show ?thesis by blast
qed

lemma indexedByName_exampleFlat: "indexedByName exampleFlat"
  by (auto simp: indexedByName_def exampleFlat_def flatEntry_def split: if_splits)

lemma currentUserPrivileges_docAcl:
  "currentUserPrivileges (Some exampleFlat) docAcl =
     Some (Yield (Some
       [''{DAV:}read'', ''{DAV:}read-current-user-privilege-set'', ''{DAV:}read-acl'',
        ''{DAV:}write'', ''{DAV:}unlock'', ''{DAV:}unbind'', ''{DAV:}bind'',
        ''{DAV:}write-content'', ''{DAV:}write-properties'', ''{DAV:}write-acl'']))"
  by code_simp

lemma getCurrentUserPrivilegeSet_no_set:
  "getCurrentUserPrivilegeSet this arg \<noteq> Some (Yield (Some privs), this')"
proof (cases arg)
  case (ByPath path)
  show ?thesis
  proof (cases "getNodeForPath this path")
    case (Inl err)
    with ByPath show ?thesis by (simp add: getCurrentUserPrivilegeSet_def)
  next
    case (Inr n)
    have "getCurrentUserPrivilegeSet_gotNode this n \<noteq> Some (Yield (Some privs), this')"
    proof (cases "getACL this (ByNode n)")
      case (Inl err)
      then show ?thesis by (simp add: getCurrentUserPrivilegeSet_gotNode_def)
    next
      case acl: (Inr found)
      show ?thesis
      proof (cases found)
        case None
        with acl show ?thesis by (simp add: getCurrentUserPrivilegeSet_gotNode_def)
      next
        case (Some acl')
        obtain r self' where ps: "getCurrentUserPrincipals this = (r, self')"
          by (cases "getCurrentUserPrincipals this")
        from getFlatPrivilegeSet_fails_or_raises [of self' "ByNode n"]
        show ?thesis
          using acl Some ps
          by (cases r) (auto simp: getCurrentUserPrivilegeSet_gotNode_def)
      qed
    qed
    with ByPath Inr show ?thesis by (simp add: getCurrentUserPrivilegeSet_def)
  qed
next
  case (ByNode n)
  then show ?thesis by (simp add: getCurrentUserPrivilegeSet_def)
qed

text \<open>
  C6. The claim: the privilege set that \<^verbatim>\<open>getCurrentUserPrivilegeSet\<close> returns holds, with
  every privilege, the aggregates that the flat table of the resource records for it, each
  once. The loop is written for that, but the flat table never reaches it:
  \<^verbatim>\<open>getCurrentUserPrivilegeSet\<close> returns a privilege set for no resource and no caller.
  For \<open>doc.txt\<close>, where both ACEs match alice and the spec's example expects the ten
  privileges below write and read, the call raises a TypeError; for \<open>shared.txt\<close>,
  where the default tree is reached, it raises the ReferenceError of the traversal.
\<close>

theorem getCurrentUserPrivilegeSet_returns_no_set:
  "getCurrentUserPrivilegeSet this arg \<noteq> Some (Yield (Some privs), this')
   \<and> collectACEs docNode [''principals/alice''] docAcl [] = docAcl
   \<and> map_option fst (getCurrentUserPrivilegeSet (examplePlugin True) (ByPath ''doc.txt''))
       = Some (Thrown (TypeError ''self''))
   \<and> map_option fst (getCurrentUserPrivilegeSet (examplePlugin True) (ByPath ''shared.txt''))
       = Some (Thrown (ReferenceError ''myPriv''))"
proof -
  have a: "collectACEs docNode [''principals/alice''] docAcl [] = docAcl"
    by (simp add: docAcl_def docNode_def)
  have b: "map_option fst (getCurrentUserPrivilegeSet (examplePlugin True) (ByPath ''doc.txt''))
       = Some (Thrown (TypeError ''self''))"
    by code_simp
  have c: "map_option fst (getCurrentUserPrivilegeSet (examplePlugin True) (ByPath ''shared.txt''))
       = Some (Thrown (ReferenceError ''myPriv''))"
    by code_simp
  from getCurrentUserPrivilegeSet_no_set a b c show ?thesis by blast
qed

subsection \<open>Replacing an ACL\<close>

text \<open>
  The two loops by themselves, as \<open>httpACL_validate\<close> runs them: a protected entry of
  the old ACL without its like in the new one ends in AceConflict; after that, with a
  table at hand, the first new entry that fails one of the three checks decides the
  error, and the ACL is set when none fails.
\<close>

lemma checkProtected_Inr:
  "checkProtected oldAcl newAcl = Inr () \<longleftrightarrow>
     (\<forall>oldAce\<in>set oldAcl. protected oldAce \<longrightarrow>
        (\<exists>newAce\<in>set newAcl. acePrincipal newAce = acePrincipal oldAce \<and>
           privilege newAce = privilege oldAce \<and> protected newAce = protected oldAce))"
  by (induction oldAcl) (auto simp: list_ex_iff)

lemma checkProtected_result:
  "checkProtected oldAcl newAcl = Inr () \<or> checkProtected oldAcl newAcl = Inl AceConflict"
  by (induction oldAcl) auto

lemma checkNewAces_find:
  "checkNewAces this (Some table) newAcl =
     (case find (\<lambda>a. \<not> acePasses this table a) newAcl of
        None \<Rightarrow> Inr ()
      | Some a \<Rightarrow> Inl (Exception (aceError this table a)))"
  by (induction newAcl) (auto simp: acePasses_def aceError_def split: option.splits sum.splits)

lemma httpACL_validate_protected_missing:
  assumes "oldAce \<in> set oldAcl" and "protected oldAce"
    and "\<not> (\<exists>newAce\<in>set newAcl. acePrincipal newAce = acePrincipal oldAce
              \<and> privilege newAce = privilege oldAce \<and> protected newAce = protected oldAce)"
  shows "httpACL_validate this uri n oldAcl supportedPrivileges newAcl
           = (Inl (Exception AceConflict), this)"
proof -
  from assms have "checkProtected oldAcl newAcl \<noteq> Inr ()"
    unfolding checkProtected_Inr by blast
  with checkProtected_result [of oldAcl newAcl]
  have "checkProtected oldAcl newAcl = Inl AceConflict" by blast
  then show ?thesis by (simp add: httpACL_validate_def)
qed

lemma httpACL_validate_first_failure:
  assumes "checkProtected oldAcl newAcl = Inr ()"
  shows "httpACL_validate this uri n oldAcl (Some table) newAcl =
     (case find (\<lambda>a. \<not> acePasses this table a) newAcl of
        None \<Rightarrow> (Inr (), setACL this uri n newAcl)
      | Some a \<Rightarrow> (Inl (Exception (aceError this table a)), this))"
  using assms by (simp add: httpACL_validate_def checkNewAces_find split: option.splits)









end
